theory Spec2Isabelle
  imports Complex_Main "HOL-Library.Multiset"
begin

section \<open>Alert rows and the shared environment\<close>

text \<open>
  One alert row, with the nine columns of the CSV file; \<open>time\<close> is the column \<open>_time\<close>.
  The two jobs hold different things in the columns, so the record leaves their types open.
\<close>

record ('t, 'c) alert_row =
  time :: 't
  src :: 'c
  dest :: 'c
  signature :: 'c
  category :: 'c
  file_name :: 'c
  severity :: 'c
  user :: 'c
  status_label :: 'c

text \<open>
  A row as the generator builds it: the event time is an instant, counted in microseconds
  since 0001-01-01T00:00:00 (the smallest \<open>datetime\<close>), every other column is a string.
\<close>

type_synonym row = "(int, string) alert_row"

text \<open>
  A row as \<open>pd.read_csv(path, parse_dates=["_time"])\<close> returns it to the summarizer.

  A cell of \<open>_time\<close> is, in a column the parser converted to naive timestamps, a
  timestamp (\<open>At\<close>, on the scale above) or a missing value (\<open>NaT\<close>); a cell of a column
  it did not convert so is \<open>Other\<close>: the text of the file, which is what every cell stays
  as soon as one of them does not parse, or a timestamp with a time zone.

  A cell of another column is a missing value (\<open>NaN\<close>: the parser reads the empty field,
  \<open>NA\<close>, \<open>null\<close>, \<open>None\<close> and the like as missing), a string, or, when the parser infers
  a numeric or boolean type for the column, the value the text denotes, so that the
  fields \<open>7\<close> and \<open>007\<close> are the same cell \<open>Num 7\<close>.
\<close>

datatype stamp = At int | NaT | Other

datatype cell = NaN | Str string | Num rat | PosInf | NegInf | Bool bool

type_synonym entry = "(stamp, cell) alert_row"

text \<open>A frame: the column names of its header and its rows.\<close>

record frame =
  columns :: "string list"
  entries :: "entry list"

datatype error =
    ValueError | OverflowError | TypeError | KeyError
  | FileNotFoundError | EmptyDataError | ParserError

text \<open>How a process ends: normally (also through \<open>sys.exit()\<close>), or by an uncaught exception.\<close>

datatype exit_status = Success | Fatal error

type_synonym 'c key = "'c \<times> 'c \<times> 'c \<times> 'c \<times> 'c"

text \<open>What the two jobs print: the three reports of the summarizer, the confirmation of the generator.\<close>

datatype message =
    NoMatching
  | NoClusters int
  | Report "(cell key \<times> nat) list"
  | Wrote nat string

text \<open>
  The environment of a run: \<open>tape\<close> is the source of random draws (the next draw is
  \<open>tape 0\<close>), \<open>today\<close> the value \<open>datetime.today()\<close> returns, \<open>files\<close> what \<open>pd.read_csv\<close>
  makes of the file at each path (the exception it raises or the frame it returns; no
  entry where there is no file), \<open>opened\<close> the paths handed to \<open>pd.read_csv\<close> so far,
  \<open>written\<close> the frames handed to \<open>to_csv\<close> by path, \<open>stdout\<close> the messages printed so far.
\<close>

record world =
  tape :: "nat \<Rightarrow> nat"
  today :: int
  files :: "string \<rightharpoonup> error + frame"
  opened :: "string list"
  written :: "string \<rightharpoonup> row list"
  stdout :: "message list"

definition closed_without :: string where
  "closed_without = ''closed without escalation''"

definition closed_with :: string where
  "closed_with = ''closed with escalation''"

section \<open>Python's \<open>int(str)\<close>, \<open>timedelta\<close> and \<open>datetime\<close> subtraction\<close>

definition is_space :: "char \<Rightarrow> bool" where
  "is_space c = (c \<in> set [CHR '' '', CHR 0x09, CHR 0x0A, CHR 0x0B, CHR 0x0C, CHR 0x0D])"

definition is_digit :: "char \<Rightarrow> bool" where
  "is_digit c = (c \<in> set ''0123456789'')"

definition digit_of :: "char \<Rightarrow> nat" where
  "digit_of c = of_char c - 48"

definition strip :: "string \<Rightarrow> string" where
  "strip s = rev (dropWhile is_space (rev (dropWhile is_space s)))"

text \<open>Decimal digits, with single underscores allowed between two digits.\<close>

fun digits_val :: "string \<Rightarrow> nat \<Rightarrow> nat option" where
  "digits_val [] acc = Some acc"
| "digits_val (c # cs) acc =
     (if is_digit c then digits_val cs (10 * acc + digit_of c)
      else if c = CHR ''_'' then
        (case cs of [] \<Rightarrow> None
         | d # ds \<Rightarrow> if is_digit d then digits_val cs acc else None)
      else None)"

definition unsigned :: "string \<Rightarrow> nat option" where
  "unsigned s = (case s of [] \<Rightarrow> None
     | c # cs \<Rightarrow> if is_digit c then digits_val s 0 else None)"

text \<open>\<open>int(s)\<close> on a string: \<open>None\<close> stands for the \<open>ValueError\<close> it raises.\<close>

definition py_int :: "string \<Rightarrow> int option" where
  "py_int s = (case strip s of [] \<Rightarrow> None
     | c # cs \<Rightarrow>
         if c = CHR ''-'' then map_option (\<lambda>n. - int n) (unsigned cs)
         else if c = CHR ''+'' then map_option int (unsigned cs)
         else map_option int (unsigned (c # cs)))"

definition day_us :: int where
  "day_us = 86400000000"

text \<open>The largest \<open>datetime\<close>, 9999-12-31T23:59:59.999999, on the scale of \<open>time\<close>.\<close>

definition datetime_max :: int where
  "datetime_max = 3652059 * day_us - 1"

text \<open>
  \<open>now - timedelta(days=d)\<close>: the constructor refuses more than 999999999 days, and the
  subtraction refuses a result outside the range of \<open>datetime\<close>; both raise \<open>OverflowError\<close>.
\<close>

definition minus_days :: "int \<Rightarrow> int \<Rightarrow> error + int" where
  "minus_days now d =
     (if \<bar>d\<bar> > 999999999 then Inl OverflowError
      else let t = now - d * day_us
           in if t < 0 \<or> datetime_max < t then Inl OverflowError else Inr t)"

section \<open>The summarizer (\<open>data_viz.py\<close>)\<close>

record config =
  CSV_IN :: string
  LOOKBACK_DAYS :: int
  MIN_CLUSTER :: int

definition defaults :: config where
  "defaults = \<lparr>CSV_IN = ''/Users/lukewescott/Documents/dev_link/automate-splunk-suppression/data/synthetic_data/notables.csv'',
     LOOKBACK_DAYS = 30, MIN_CLUSTER = 5\<rparr>"

text \<open>The list \<open>GROUP_COLS\<close> of column names, and the projection \<open>df.loc[_, GROUP_COLS]\<close> of one row.\<close>

definition GROUP_COL_NAMES :: "string list" where
  "GROUP_COL_NAMES = [''src'', ''dest'', ''user'', ''signature'', ''severity'']"

definition GROUP_COLS :: "('t, 'c) alert_row \<Rightarrow> 'c key" where
  "GROUP_COLS r = (src r, dest r, user r, signature r, severity r)"

text \<open>
  \<open>parse_cli\<close>: the globals it assigns are the fields of the configuration it returns; the
  three tests run in the order of the source, so a bad second argument raises before the
  third is looked at.
\<close>

definition parse_cli :: "string list \<Rightarrow> error + config" where
  "parse_cli argv =
     (let c1 = (if length argv > 1 then defaults\<lparr>CSV_IN := argv ! 1\<rparr> else defaults)
      in case (if length argv > 2
               then (case py_int (argv ! 2) of None \<Rightarrow> Inl ValueError
                     | Some d \<Rightarrow> Inr (c1\<lparr>LOOKBACK_DAYS := d\<rparr>))
               else Inr c1) of
           Inl e \<Rightarrow> Inl e
         | Inr c2 \<Rightarrow>
             (if length argv > 3
              then (case py_int (argv ! 3) of None \<Rightarrow> Inl ValueError
                    | Some m \<Rightarrow> Inr (c2\<lparr>MIN_CLUSTER := m\<rparr>))
              else Inr c2))"

text \<open>
  Whether \<open>df["_time"] >= cutoff\<close> can be evaluated on a cell: comparing a cell that is
  not a naive timestamp with the naive \<open>cutoff\<close> raises \<open>TypeError\<close>.
\<close>

fun naive :: "stamp \<Rightarrow> bool" where
  "naive (At t) = True"
| "naive NaT = True"
| "naive Other = False"

text \<open>The comparison on a cell of a converted column; a missing timestamp compares false.\<close>

fun on_or_after :: "stamp \<Rightarrow> int \<Rightarrow> bool" where
  "on_or_after (At t) cutoff = (cutoff \<le> t)"
| "on_or_after NaT cutoff = False"
| "on_or_after Other cutoff = False"

text \<open>
  The mask \<open>filt\<close> of one row, for a cutoff already computed. The test \<open>==\<close> against the
  label is false on a missing value and on a number.
\<close>

definition filt :: "int \<Rightarrow> entry \<Rightarrow> bool" where
  "filt cutoff r = (on_or_after (time r) cutoff \<and> status_label r = Str closed_without)"

definition focus :: "int \<Rightarrow> entry list \<Rightarrow> cell key list" where
  "focus cutoff df = map GROUP_COLS (filter (filt cutoff) df)"

fun has_nan :: "cell key \<Rightarrow> bool" where
  "has_nan (a, b, c, d, e) = (NaN \<in> set [a, b, c, d, e])"

text \<open>
  \<open>value_counts()\<close>, with its default \<open>dropna=True\<close>: the tuples with a missing value in
  any column are left out; of the others there is one entry per distinct tuple with the
  number of its occurrences, most frequent first. The order among equal counts is whatever
  the library's sort leaves; here it is the order of first appearance, and no statement
  below depends on it.
\<close>

definition value_counts :: "cell key list \<Rightarrow> (cell key \<times> nat) list" where
  "value_counts xs =
     (let ys = filter (\<lambda>k. \<not> has_nan k) xs
      in sort_key (\<lambda>(k, c). - int c) (map (\<lambda>k. (k, count_list ys k)) (rev (remdups (rev ys)))))"

text \<open>The chain \<open>value_counts / reset_index / query / sort_values\<close> of \<open>main\<close>.\<close>

definition summary :: "int \<Rightarrow> cell key list \<Rightarrow> (cell key \<times> nat) list" where
  "summary min_cluster fc =
     sort_key (\<lambda>(k, c). - int c)
       (filter (\<lambda>(k, alert_count). int alert_count \<ge> min_cluster) (value_counts fc))"

definition say :: "message \<Rightarrow> world \<Rightarrow> world" where
  "say m w = w\<lparr>stdout := stdout w @ [m]\<rparr>"

definition read_csv :: "string \<Rightarrow> world \<Rightarrow> (error + frame) \<times> world" where
  "read_csv path w =
     (case files w path of
        None \<Rightarrow> (Inl FileNotFoundError, w\<lparr>opened := opened w @ [path]\<rparr>)
      | Some res \<Rightarrow> (res, w\<lparr>opened := opened w @ [path]\<rparr>))"

text \<open>
  \<open>main\<close> after \<open>parse_cli()\<close>, for the configuration the globals then hold. The steps
  that can raise come in the order of the source: reading the file, computing the cutoff,
  then in the mask the column \<open>_time\<close> and its comparison with the cutoff, the column
  \<open>status_label\<close>, and last the selection of the grouping columns.
\<close>

definition main_body :: "config \<Rightarrow> world \<Rightarrow> exit_status \<times> world" where
  "main_body cfg w =
     (case read_csv (CSV_IN cfg) w of
        (Inl e, w1) \<Rightarrow> (Fatal e, w1)
      | (Inr df, w1) \<Rightarrow>
          (case minus_days (today w1) (LOOKBACK_DAYS cfg) of
             Inl e \<Rightarrow> (Fatal e, w1)
           | Inr cutoff \<Rightarrow>
               (if ''_time'' \<notin> set (columns df) then (Fatal KeyError, w1)
                else if \<not> list_all (\<lambda>r. naive (time r)) (entries df) then (Fatal TypeError, w1)
                else if ''status_label'' \<notin> set (columns df) then (Fatal KeyError, w1)
                else if \<not> set GROUP_COL_NAMES \<subseteq> set (columns df) then (Fatal KeyError, w1)
                else let fc = focus cutoff (entries df)
                     in if fc = [] then (Success, say NoMatching w1)
                        else let s = summary (MIN_CLUSTER cfg) fc
                             in if s = [] then (Success, say (NoClusters (MIN_CLUSTER cfg)) w1)
                                else (Success, say (Report s) w1))))"

definition summarizer_main :: "string list \<Rightarrow> world \<Rightarrow> exit_status \<times> world" where
  "summarizer_main argv w =
     (case parse_cli argv of
        Inl e \<Rightarrow> (Fatal e, w)
      | Inr cfg \<Rightarrow> main_body cfg w)"

text \<open>The clusters a run reported: those of the messages it added to \<open>stdout\<close>.\<close>

fun clusters_of :: "message \<Rightarrow> (cell key \<times> nat) list" where
  "clusters_of (Report s) = s"
| "clusters_of _ = []"

definition printed :: "world \<Rightarrow> exit_status \<times> world \<Rightarrow> message list" where
  "printed w res = drop (length (stdout w)) (stdout (snd res))"

definition reported :: "world \<Rightarrow> exit_status \<times> world \<Rightarrow> (cell key \<times> nat) list" where
  "reported w res = concat (map clusters_of (printed w res))"

section \<open>The generator (\<open>synthetic_data_generator.py\<close>)\<close>

subsection \<open>Random draws\<close>

text \<open>
  Every call of the \<open>random\<close> module (and of the sampler behind \<open>DataFrame.sample\<close>) takes
  the next draw of the tape, an arbitrary natural number, and reduces it to the range the
  call asks for; so every outcome the library can produce is the outcome for some tape.
\<close>

type_synonym rng = "nat \<Rightarrow> nat"

definition shift :: "rng \<Rightarrow> rng" where
  "shift g = (\<lambda>i. g (Suc i))"

text \<open>\<open>random.randint(a, b)\<close>, called in the source with \<open>a \<le> b\<close> only.\<close>

definition randint :: "int \<Rightarrow> int \<Rightarrow> rng \<Rightarrow> int \<times> rng" where
  "randint a b g = (a + int (g 0 mod nat (b - a + 1)), shift g)"

text \<open>\<open>random.choice(seq)\<close>, called in the source on non-empty lists only.\<close>

definition choice :: "'a list \<Rightarrow> rng \<Rightarrow> 'a \<times> rng" where
  "choice xs g = (xs ! (g 0 mod length xs), shift g)"

text \<open>The element whose cumulative weight first exceeds \<open>d\<close>; the last one if none does.\<close>

fun weighted :: "'a list \<Rightarrow> nat list \<Rightarrow> nat \<Rightarrow> 'a \<Rightarrow> 'a" where
  "weighted (x # xs) (w # ws) d dflt = (if d < w then x else weighted xs ws (d - w) x)"
| "weighted _ _ d dflt = dflt"

text \<open>\<open>random.choices(population, weights=ws)[0]\<close>, for a non-empty population.\<close>

definition choices :: "'a list \<Rightarrow> nat list \<Rightarrow> rng \<Rightarrow> 'a \<times> rng" where
  "choices pop ws g = (weighted pop ws (g 0 mod sum_list ws) (hd pop), shift g)"

text \<open>\<open>n\<close> elements of \<open>xs\<close> at distinct positions, in the order they are drawn.\<close>

fun take_random :: "nat \<Rightarrow> 'a list \<Rightarrow> rng \<Rightarrow> 'a list \<times> rng" where
  "take_random 0 xs g = ([], g)"
| "take_random (Suc n) xs g =
     (if xs = [] then ([], g)
      else let i = g 0 mod length xs;
               (ys, g') = take_random n (take i xs @ drop (Suc i) xs) (shift g)
           in (xs ! i # ys, g'))"

text \<open>
  \<open>df.sample(n)\<close>, without replacement: \<open>ValueError\<close> for a negative \<open>n\<close> and for an \<open>n\<close>
  larger than the frame.
\<close>

definition sample :: "int \<Rightarrow> 'a list \<Rightarrow> rng \<Rightarrow> (error + 'a list) \<times> rng" where
  "sample n df g =
     (if n < 0 \<or> int (length df) < n then (Inl ValueError, g)
      else let (ys, g') = take_random (nat n) df g in (Inr ys, g'))"

subsection \<open>Configuration\<close>

definition ROWS_DEFAULT :: int where
  "ROWS_DEFAULT = 20000"

text \<open>
  The ratio 0.05. The source multiplies in floating point; the product is taken exactly
  here, which gives the same integer part for every row count that fits in memory.
\<close>

definition PROOF_DUPLICATE_RATIO :: rat where
  "PROOF_DUPLICATE_RATIO = 5 / 100"

definition CSV_OUT :: string where
  "CSV_OUT = ''notables.csv''"

record network =
  network_address :: nat
  num_addresses :: nat

text \<open>10.0.0.0/16 and 192.168.0.0/16, the address as a 32-bit number.\<close>

definition SRC_NET :: network where
  "SRC_NET = \<lparr>network_address = 10 * 2 ^ 24, num_addresses = 2 ^ 16\<rparr>"

definition DEST_NET :: network where
  "DEST_NET = \<lparr>network_address = 192 * 2 ^ 24 + 168 * 2 ^ 16, num_addresses = 2 ^ 16\<rparr>"

definition SIGNATURES :: "string list" where
  "SIGNATURES = [''EICAR-TEST-FILE'', ''Meterpreter Beacon'', ''Cobalt Strike Loader'',
     ''Unknown Hash Hit'', ''Suspicious PowerShell'', ''Ransomware Behaviour'']"

definition CATEGORIES :: "string list" where
  "CATEGORIES = [''malware'', ''command-and-control'', ''lateral-movement'',
     ''priv-esc'', ''persistence'', ''exfiltration'']"

definition FILENAMES :: "string list" where
  "FILENAMES = [''calc.exe'', ''svchost.exe'', ''powershell.exe'', ''runme.tmp'',
     ''install.ps1'', ''invoice.docx'', ''setup.msi'']"

definition SEVERITIES :: "string list" where
  "SEVERITIES = [''low'', ''medium'', ''high'', ''critical'']"

text \<open>\<open>str(n)\<close> for a natural number, and the format \<open>{i:03}\<close>.\<close>

fun str_nat :: "nat \<Rightarrow> string" where
  "str_nat n = (if n < 10 then [char_of (48 + n)]
                else str_nat (n div 10) @ [char_of (48 + n mod 10)])"

declare str_nat.simps [simp del]

definition pad3 :: "nat \<Rightarrow> string" where
  "pad3 i = (let s = str_nat i in replicate (3 - length s) (CHR ''0'') @ s)"

definition USERS :: "string list" where
  "USERS = map (\<lambda>i. ''CORP'' @ [CHR 0x5C] @ ''user'' @ pad3 i) [1..<201]"

text \<open>The two labels with their weights 0.8 and 0.2, in tenths.\<close>

definition STATUS_WEIGHTS :: "(string \<times> nat) list" where
  "STATUS_WEIGHTS = [(closed_without, 8), (closed_with, 2)]"

subsection \<open>Rows\<close>

text \<open>\<open>str(net[i])\<close>: the dotted quad of the \<open>i\<close>-th address of the network.\<close>

definition ip_str :: "nat \<Rightarrow> string" where
  "ip_str a = str_nat (a div 2 ^ 24 mod 256) @ ''.'' @ str_nat (a div 2 ^ 16 mod 256) @ ''.''
     @ str_nat (a div 2 ^ 8 mod 256) @ ''.'' @ str_nat (a mod 256)"

definition random_ip :: "network \<Rightarrow> rng \<Rightarrow> string \<times> rng" where
  "random_ip net g =
     (let (host_int, g') = randint 1 (int (num_addresses net) - 2) g
      in (ip_str (network_address net + nat host_int), g'))"

text \<open>
  \<open>synth_row\<close>: the draws are made in the order of the dictionary display. The event time
  is \<open>datetime.today()\<close> minus the offset in days (an offset of at most 89 days never leaves
  the range of \<open>datetime\<close> for a present-day clock). The source reads the clock anew for
  each row; a run is taken to be instantaneous here, so every row sees the same \<open>now\<close>.
\<close>

definition synth_row :: "int \<Rightarrow> int \<Rightarrow> rng \<Rightarrow> row \<times> rng" where
  "synth_row day_offset now g =
     (let event_time = now - day_offset * day_us;
          (s, g1) = random_ip SRC_NET g;
          (d, g2) = random_ip DEST_NET g1;
          (sg, g3) = choice SIGNATURES g2;
          (ct, g4) = choice CATEGORIES g3;
          (fn, g5) = choice FILENAMES g4;
          (sv, g6) = choices SEVERITIES [4, 4, 2, 1] g5;
          (u, g7) = choice USERS g6;
          (st, g8) = choices (map fst STATUS_WEIGHTS) (map snd STATUS_WEIGHTS) g7
      in (\<lparr>time = event_time, src = s, dest = d, signature = sg, category = ct,
           file_name = fn, severity = sv, user = u, status_label = st\<rparr>, g8))"

subsection \<open>\<open>generate_notables\<close>\<close>

text \<open>The inner loop: \<open>n\<close> rows for one day offset.\<close>

fun rows_of_day :: "nat \<Rightarrow> int \<Rightarrow> int \<Rightarrow> rng \<Rightarrow> row list \<times> rng" where
  "rows_of_day 0 offset now g = ([], g)"
| "rows_of_day (Suc n) offset now g =
     (let (r, g1) = synth_row offset now g;
          (rs, g2) = rows_of_day n offset now g1
      in (r # rs, g2))"

text \<open>The outer loop over the day offsets.\<close>

fun rows_of_days :: "nat list \<Rightarrow> nat \<Rightarrow> int \<Rightarrow> rng \<Rightarrow> row list \<times> rng" where
  "rows_of_days [] per_day now g = ([], g)"
| "rows_of_days (offset # offsets) per_day now g =
     (let (rs, g1) = rows_of_day per_day (int offset) now g;
          (rss, g2) = rows_of_days offsets per_day now g1
      in (rs @ rss, g2))"

text \<open>The remainder loop: each row on a day drawn by \<open>random.randint(0, 89)\<close>.\<close>

fun remainder_rows :: "nat \<Rightarrow> int \<Rightarrow> rng \<Rightarrow> row list \<times> rng" where
  "remainder_rows 0 now g = ([], g)"
| "remainder_rows (Suc n) now g =
     (let (offset, g1) = randint 0 89 g;
          (r, g2) = synth_row offset now g1;
          (rs, g3) = remainder_rows n now g2
      in (r # rs, g3))"

text \<open>\<open>rows // 90 or 1\<close>, and the remainder computed from it.\<close>

definition per_day_of :: "int \<Rightarrow> int" where
  "per_day_of rows = (if rows div 90 = 0 then 1 else rows div 90)"

definition remainder_of :: "int \<Rightarrow> int" where
  "remainder_of rows = rows - per_day_of rows * 90"

text \<open>
  The non-duplicate set, as its two parts: the rows of the day loop and the rows of the
  remainder loop. \<open>range\<close> of a negative number is empty.
\<close>

definition base_records :: "int \<Rightarrow> int \<Rightarrow> rng \<Rightarrow> (row list \<times> row list) \<times> rng" where
  "base_records rows now g =
     (let (fixed, g1) = rows_of_days [0..<90] (nat (per_day_of rows)) now g;
          (extra, g2) = remainder_rows (nat (remainder_of rows)) now g1
      in ((fixed, extra), g2))"

text \<open>\<open>int(x)\<close> on a number: truncation towards zero.\<close>

definition trunc :: "rat \<Rightarrow> int" where
  "trunc q = (if 0 \<le> q then \<lfloor>q\<rfloor> else \<lceil>q\<rceil>)"

definition dupe_count_of :: "int \<Rightarrow> int" where
  "dupe_count_of rows = trunc (of_int rows * PROOF_DUPLICATE_RATIO)"

text \<open>The assignment \<open>dupe_sample["status_label"] = "closed without escalation"\<close>.\<close>

definition set_status :: "row list \<Rightarrow> row list" where
  "set_status rs = map (\<lambda>r. r\<lparr>status_label := closed_without\<rparr>) rs"

text \<open>
  The injection step: the frame with the duplicates appended, together with the sampled
  rows as they were drawn (before the assignment).
\<close>

definition inject :: "int \<Rightarrow> row list \<Rightarrow> rng \<Rightarrow> (error + row list \<times> row list) \<times> rng" where
  "inject dupe_count df g =
     (if dupe_count \<noteq> 0
      then (case sample dupe_count df g of
              (Inl e, g') \<Rightarrow> (Inl e, g')
            | (Inr dupe_sample, g') \<Rightarrow> (Inr (df @ set_status dupe_sample, dupe_sample), g'))
      else (Inr (df, []), g))"

definition generate_notables :: "int \<Rightarrow> int \<Rightarrow> rng \<Rightarrow> (error + row list) \<times> rng" where
  "generate_notables rows now g =
     (let ((fixed, extra), g1) = base_records rows now g;
          df = fixed @ extra
      in case inject (dupe_count_of rows) df g1 of
           (Inl e, g2) \<Rightarrow> (Inl e, g2)
         | (Inr (df', dupe_sample), g2) \<Rightarrow> sample (int (length df')) df' g2)"

definition generator_main :: "string list \<Rightarrow> world \<Rightarrow> exit_status \<times> world" where
  "generator_main argv w =
     (case (if length argv > 1
            then (case py_int (argv ! 1) of None \<Rightarrow> Inl ValueError | Some n \<Rightarrow> Inr n)
            else Inr ROWS_DEFAULT) of
        Inl e \<Rightarrow> (Fatal e, w)
      | Inr total_rows \<Rightarrow>
          (case generate_notables total_rows (today w) (tape w) of
             (Inl e, g') \<Rightarrow> (Fatal e, w\<lparr>tape := g'\<rparr>)
           | (Inr df, g') \<Rightarrow>
               (let out = (if length argv \<le> 2 then CSV_OUT else argv ! 2)
                in (Success,
                    say (Wrote (length df) out)
                      (w\<lparr>tape := g', written := (written w)(out \<mapsto> df)\<rparr>)))))"

section \<open>Predicates of the statements\<close>

text \<open>
  A dotted quad of the network other than its first and its last address.
\<close>

definition in_hosts :: "network \<Rightarrow> string \<Rightarrow> bool" where
  "in_hosts net s =
     (\<exists>a \<in> {network_address net + 1 ..< network_address net + num_addresses net - 1}.
        s = ip_str a)"

definition row_ok :: "row \<Rightarrow> bool" where
  "row_ok r =
     (severity r \<in> set SEVERITIES
      \<and> status_label r \<in> {closed_without, closed_with}
      \<and> in_hosts SRC_NET (src r)
      \<and> in_hosts DEST_NET (dest r))"

text \<open>
  The rows of a dataset that are closed without escalation and agree on the five
  grouping columns with a row at another position: the tuple occurs at least twice.
\<close>

definition dup_rows :: "row list \<Rightarrow> row list" where
  "dup_rows ds =
     filter (\<lambda>r. status_label r = closed_without
                \<and> 2 \<le> length (filter (\<lambda>r'. GROUP_COLS r' = GROUP_COLS r) ds)) ds"

text \<open>
  A frame on which the mask and the selection do not raise: the header has the columns
  the summarizer names, and every cell of \<open>_time\<close> is a naive timestamp or missing.
\<close>

definition well_read :: "frame \<Rightarrow> bool" where
  "well_read df =
     (list_all (\<lambda>r. naive (time r)) (entries df)
      \<and> set (''_time'' # ''status_label'' # GROUP_COL_NAMES) \<subseteq> set (columns df))"

text \<open>The number of rows a run of the generator returned; \<open>None\<close> if it raised.\<close>

definition row_count :: "(error + row list) \<times> rng \<Rightarrow> nat option" where
  "row_count res = (case fst res of Inl e \<Rightarrow> None | Inr ds \<Rightarrow> Some (length ds))"

section \<open>Sample inputs\<close>

text \<open>The clock at 2026-11-03T00:00:00, a tape of zeros, and two frames.\<close>

definition clock0 :: int where
  "clock0 = 739922 * day_us"

definition zero_tape :: rng where
  "zero_tape = (\<lambda>i. 0)"

definition demo_user :: string where
  "demo_user = ''CORP'' @ [CHR 0x5C] @ ''user001''"

definition demo_row :: "int \<Rightarrow> string \<Rightarrow> row" where
  "demo_row t st =
     \<lparr>time = t, src = ''10.0.1.5'', dest = ''192.168.2.3'', signature = ''EICAR-TEST-FILE'',
      category = ''malware'', file_name = ''calc.exe'', severity = ''low'', user = demo_user,
      status_label = st\<rparr>"

definition demo_key :: "cell key" where
  "demo_key = (Str ''10.0.1.5'', Str ''192.168.2.3'', Str demo_user, Str ''EICAR-TEST-FILE'',
     Str ''low'')"

definition demo_entry :: "int \<Rightarrow> string \<Rightarrow> entry" where
  "demo_entry t st =
     \<lparr>time = At t, src = Str ''10.0.1.5'', dest = Str ''192.168.2.3'',
      signature = Str ''EICAR-TEST-FILE'', category = Str ''malware'',
      file_name = Str ''calc.exe'', severity = Str ''low'', user = Str demo_user,
      status_label = Str st\<rparr>"

definition all_columns :: "string list" where
  "all_columns = [''_time'', ''src'', ''dest'', ''signature'', ''category'', ''file_name'',
     ''severity'', ''user'', ''status_label'']"

text \<open>
  In order: a row exactly 30 days old, a row of yesterday, an escalated row of yesterday,
  a row 60 days old, and a row dated five days ahead.
\<close>

definition demo_file :: frame where
  "demo_file = \<lparr>columns = all_columns, entries =
     [demo_entry (clock0 - 30 * day_us) ''closed without escalation'',
      demo_entry (clock0 - day_us) ''closed without escalation'',
      demo_entry (clock0 - day_us) ''closed with escalation'',
      demo_entry (clock0 - 60 * day_us) ''closed without escalation'',
      demo_entry (clock0 + 5 * day_us) ''closed without escalation'']\<rparr>"


definition world_of :: "frame \<Rightarrow> int \<Rightarrow> world" where
  "world_of df t =
     \<lparr>tape = zero_tape, today = t, files = [''notables.csv'' \<mapsto> Inr df],
      opened = [], written = Map.empty, stdout = []\<rparr>"

definition demo_world :: "int \<Rightarrow> world" where
  "demo_world t = world_of demo_file t"

section \<open>Facts about the summarizer\<close>

lemma count_list_dropna:
  "count_list (filter (\<lambda>k. \<not> has_nan k) xs) k = (if has_nan k then 0 else count_list xs k)"
  by (induction xs) auto

lemma set_value_counts:
  "set (value_counts xs) = (\<lambda>k. (k, count_list xs k)) ` {k \<in> set xs. \<not> has_nan k}"
  by (auto simp: value_counts_def Let_def count_list_dropna)



lemma set_summary:
  "set (summary m fc) =
     {(k, c). k \<in> set fc \<and> \<not> has_nan k \<and> c = count_list fc k \<and> m \<le> int c}"
  by (auto simp: summary_def set_value_counts)

lemma summary_Nil: "summary m [] = []"
  by (simp add: summary_def value_counts_def)



lemma length_filter_mono:
  "(\<And>x. x \<in> set xs \<Longrightarrow> P x \<Longrightarrow> Q x) \<Longrightarrow> length (filter P xs) \<le> length (filter Q xs)"
  by (induction xs) (auto simp: le_SucI)

lemma length_summary_mono:
  "m1 \<le> m2 \<Longrightarrow> length (summary m2 fc) \<le> length (summary m1 fc)"
  unfolding summary_def length_sort
  by (rule length_filter_mono) auto

lemma set_summary_mono:
  "m1 \<le> m2 \<Longrightarrow> set (summary m2 fc) \<subseteq> set (summary m1 fc)"
  by (auto simp: set_summary)

lemma main_body_well_read:
  assumes "files w (CSV_IN cfg) = Some (Inr df)"
    and "minus_days (today w) (LOOKBACK_DAYS cfg) = Inr cutoff"
    and "well_read df"
  shows "main_body cfg w =
     (let w1 = w\<lparr>opened := opened w @ [CSV_IN cfg]\<rparr>; fc = focus cutoff (entries df)
      in if fc = [] then (Success, say NoMatching w1)
         else let s = summary (MIN_CLUSTER cfg) fc
              in if s = [] then (Success, say (NoClusters (MIN_CLUSTER cfg)) w1)
                 else (Success, say (Report s) w1))"
  using assms by (simp add: main_body_def read_csv_def well_read_def Let_def)

lemma reported_well_read:
  assumes "files w (CSV_IN cfg) = Some (Inr df)"
    and "minus_days (today w) (LOOKBACK_DAYS cfg) = Inr cutoff"
    and "well_read df"
  shows "reported w (main_body cfg w) = summary (MIN_CLUSTER cfg) (focus cutoff (entries df))"
  unfolding main_body_well_read[OF assms]
  by (simp add: reported_def printed_def say_def Let_def summary_Nil)

lemma reported_main_body:
  "reported w (main_body cfg w) =
     (case files w (CSV_IN cfg) of
        Some (Inr df) \<Rightarrow>
          (case minus_days (today w) (LOOKBACK_DAYS cfg) of
             Inr cutoff \<Rightarrow>
               if well_read df then summary (MIN_CLUSTER cfg) (focus cutoff (entries df)) else []
           | Inl e \<Rightarrow> [])
      | _ \<Rightarrow> [])"
proof (cases "files w (CSV_IN cfg)")
  case None
  then show ?thesis
    by (simp add: reported_def printed_def main_body_def read_csv_def)
next
  case (Some res)
  show ?thesis
  proof (cases res)
    case (Inl e)
    with Some show ?thesis
      by (simp add: reported_def printed_def main_body_def read_csv_def)
  next
    case (Inr df)
    show ?thesis
    proof (cases "minus_days (today w) (LOOKBACK_DAYS cfg)")
      case (Inl e)
      with Some Inr show ?thesis
        by (simp add: reported_def printed_def main_body_def read_csv_def)
    next
      case c: (Inr cutoff)
      show ?thesis
      proof (cases "well_read df")
        case True
        from reported_well_read[OF Some[unfolded Inr] c True] Some Inr c True
        show ?thesis by simp
      next
        case False
        with Some Inr c show ?thesis
          by (auto simp: reported_def printed_def main_body_def read_csv_def well_read_def)
      qed
    qed
  qed
qed


subsection \<open>Evaluation on the sample inputs\<close>

lemmas py_int_defs = py_int_def strip_def is_space_def unsigned_def is_digit_def digit_of_def

lemma py_int_abc: "py_int ''abc'' = None"
  by (simp add: py_int_defs)





lemma cutoff_30: "minus_days clock0 30 = Inr (clock0 - 30 * day_us)"
  by (simp add: minus_days_def clock0_def day_us_def datetime_max_def)


lemma well_read_demo: "well_read demo_file"
  by (simp add: well_read_def demo_file_def demo_entry_def all_columns_def GROUP_COL_NAMES_def)


lemma focus_demo:
  "focus (clock0 - 30 * day_us) (entries demo_file) = [demo_key, demo_key, demo_key]"
  by (simp add: focus_def demo_file_def filt_def demo_entry_def closed_without_def GROUP_COLS_def
      demo_key_def clock0_def day_us_def)


lemma has_nan_demo: "\<not> has_nan demo_key"
  by (simp add: demo_key_def)

lemma value_counts_demo3: "value_counts [demo_key, demo_key, demo_key] = [(demo_key, 3)]"
  by (simp add: value_counts_def has_nan_demo)






section \<open>Statements about the summarizer\<close>




text \<open>
  C4. For one input file and one lookback window, a larger minimum cluster size reports a
  subset of the clusters a smaller one reports, and so at most as many.
\<close>

theorem threshold_monotone:
  assumes "m1 \<le> m2"
  shows "set (reported w (main_body (cfg\<lparr>MIN_CLUSTER := m2\<rparr>) w))
           \<subseteq> set (reported w (main_body (cfg\<lparr>MIN_CLUSTER := m1\<rparr>) w))
       \<and> length (reported w (main_body (cfg\<lparr>MIN_CLUSTER := m2\<rparr>) w))
           \<le> length (reported w (main_body (cfg\<lparr>MIN_CLUSTER := m1\<rparr>) w))"
  using set_summary_mono[OF assms] length_summary_mono[OF assms]
  by (simp add: reported_main_body split: option.splits sum.splits)

theorem threshold_monotone_witness:
  "(3::int) \<le> 5
   \<and> reported (demo_world clock0)
        (main_body \<lparr>CSV_IN = ''notables.csv'', LOOKBACK_DAYS = 30, MIN_CLUSTER = 3\<rparr> (demo_world clock0))
       = [(demo_key, 3)]
   \<and> set (reported (demo_world clock0)
        (main_body \<lparr>CSV_IN = ''notables.csv'', LOOKBACK_DAYS = 30, MIN_CLUSTER = 5\<rparr> (demo_world clock0)))
       \<subseteq> {(demo_key, 3)}"
proof -
  have le: "(3::int) \<le> 5" by simp
  have r3: "reported (demo_world clock0)
        (main_body \<lparr>CSV_IN = ''notables.csv'', LOOKBACK_DAYS = 30, MIN_CLUSTER = 3\<rparr> (demo_world clock0))
       = [(demo_key, 3)]"
    by (simp add: reported_main_body demo_world_def world_of_def cutoff_30 well_read_demo
        focus_demo summary_def value_counts_demo3)
  show ?thesis
    using threshold_monotone [OF le, of "demo_world clock0"
        "\<lparr>CSV_IN = ''notables.csv'', LOOKBACK_DAYS = 30, MIN_CLUSTER = 3\<rparr>"] r3
    by simp
qed







text \<open>
  C9. A non-integer string where an integer is expected (the lookback days or the minimum
  cluster size of the summarizer, the row count of the generator) ends the job with a
  \<open>ValueError\<close> and leaves the environment as it was: no file opened or written, nothing
  printed, no random draw taken.
\<close>

theorem bad_integer_fails_first:
  "((2 < length argv \<and> py_int (argv ! 2) = None) \<or> (3 < length argv \<and> py_int (argv ! 3) = None)
      \<longrightarrow> summarizer_main argv w = (Fatal ValueError, w))
   \<and> (1 < length argv \<and> py_int (argv ! 1) = None
      \<longrightarrow> generator_main argv w = (Fatal ValueError, w))"
  by (auto simp: summarizer_main_def parse_cli_def generator_main_def Let_def
      split: option.splits sum.splits)

theorem bad_integer_fails_first_witness:
  "py_int ''abc'' = None
   \<and> summarizer_main [''summarize_noise.py'', ''notables.csv'', ''30'', ''abc''] (demo_world clock0)
       = (Fatal ValueError, demo_world clock0)
   \<and> generator_main [''synthetic_edr_notables.py'', ''abc''] (demo_world clock0)
       = (Fatal ValueError, demo_world clock0)"
  using bad_integer_fails_first
          [of "[''summarize_noise.py'', ''notables.csv'', ''30'', ''abc'']" "demo_world clock0"]
        bad_integer_fails_first
          [of "[''synthetic_edr_notables.py'', ''abc'']" "demo_world clock0"]
  by (simp add: py_int_abc)

section \<open>Facts about the generator\<close>

lemma randint_range: "a \<le> b \<Longrightarrow> a \<le> fst (randint a b g) \<and> fst (randint a b g) \<le> b"
proof -
  assume "a \<le> b"
  then have "0 < nat (b - a + 1)" by simp
  then have "g 0 mod nat (b - a + 1) < nat (b - a + 1)" by (rule mod_less_divisor)
  then show ?thesis by (simp add: randint_def)
qed

lemma choice_mem: "xs \<noteq> [] \<Longrightarrow> fst (choice xs g) \<in> set xs"
  by (simp add: choice_def)

lemma weighted_mem: "weighted pop ws d dflt \<in> insert dflt (set pop)"
  by (induction pop ws d dflt rule: weighted.induct) auto

lemma choices_mem: "pop \<noteq> [] \<Longrightarrow> fst (choices pop ws g) \<in> set pop"
  using weighted_mem[of pop ws "g 0 mod sum_list ws" "hd pop"]
  by (auto simp: choices_def)

lemma random_ip_hosts: "3 \<le> num_addresses net \<Longrightarrow> in_hosts net (fst (random_ip net g))"
proof -
  assume n: "3 \<le> num_addresses net"
  obtain h g' where r: "randint 1 (int (num_addresses net) - 2) g = (h, g')" by (cases "randint 1 (int (num_addresses net) - 2) g")
  have "1 \<le> fst (randint 1 (int (num_addresses net) - 2) g) \<and> fst (randint 1 (int (num_addresses net) - 2) g) \<le> int (num_addresses net) - 2"
    by (rule randint_range) (use n in simp)
  then have "1 \<le> h" "h \<le> int (num_addresses net) - 2" using r by simp_all
  then have "network_address net + nat h \<in> {network_address net + 1 ..< network_address net + num_addresses net - 1}"
    by auto
  then show ?thesis unfolding in_hosts_def random_ip_def r by auto
qed

lemma synth_row_time: "time (fst (synth_row d now g)) = now - d * day_us"
  by (simp add: synth_row_def Let_def split: prod.splits)

lemma synth_row_ok: "row_ok (fst (synth_row d now g))"
proof -
  have s: "\<And>g. in_hosts SRC_NET (fst (random_ip SRC_NET g))"
    by (rule random_ip_hosts) (simp add: SRC_NET_def)
  have d: "\<And>g. in_hosts DEST_NET (fst (random_ip DEST_NET g))"
    by (rule random_ip_hosts) (simp add: DEST_NET_def)
  have sv: "\<And>ws g. fst (choices SEVERITIES ws g) \<in> set SEVERITIES"
    by (rule choices_mem) (simp add: SEVERITIES_def)
  have st: "\<And>g. fst (choices (map fst STATUS_WEIGHTS) (map snd STATUS_WEIGHTS) g) \<in> {closed_without, closed_with}"
    using choices_mem[of "map fst STATUS_WEIGHTS" "map snd STATUS_WEIGHTS"]
    by (simp add: STATUS_WEIGHTS_def insert_commute)
  show ?thesis
    by (simp add: row_ok_def synth_row_def Let_def case_prod_beta s d sv st del: insert_iff)
qed

lemma rows_of_day_props:
  "length (fst (rows_of_day n off now g)) = n
   \<and> (\<forall>r \<in> set (fst (rows_of_day n off now g)). row_ok r \<and> time r = now - off * day_us)"
proof (induction n arbitrary: g)
  case 0
  then show ?case by simp
next
  case (Suc n)
  show ?case
    using Suc.IH[of "snd (synth_row off now g)"] synth_row_ok[of off now g] synth_row_time[of off now g]
    by (simp add: case_prod_beta Let_def)
qed

lemma day_us_pos: "0 < day_us"
  by (simp add: day_us_def)

lemma rows_of_days_props:
  "length (fst (rows_of_days offs pd now g)) = length offs * pd
   \<and> (\<forall>r \<in> set (fst (rows_of_days offs pd now g)). row_ok r \<and> (\<exists>d \<in> set offs. time r = now - int d * day_us))"
proof (induction offs arbitrary: g)
  case Nil
  then show ?case by simp
next
  case (Cons a offs)
  show ?case
    using Cons.IH[of "snd (rows_of_day pd (int a) now g)"] rows_of_day_props[of pd "int a" now g]
    by (auto simp: case_prod_beta Let_def)
qed

lemma rows_of_days_count:
  "distinct offs \<Longrightarrow>
   length (filter (\<lambda>r. time r = now - int d * day_us) (fst (rows_of_days offs pd now g)))
     = (if d \<in> set offs then pd else 0)"
proof (induction offs arbitrary: g)
  case Nil
  then show ?case by simp
next
  case (Cons a offs)
  have day: "\<And>r. r \<in> set (fst (rows_of_day pd (int a) now g)) \<Longrightarrow> time r = now - int a * day_us"
    using rows_of_day_props[of pd "int a" now g] by blast
  have len: "length (fst (rows_of_day pd (int a) now g)) = pd"
    using rows_of_day_props[of pd "int a" now g] by blast
  have f: "filter (\<lambda>r. time r = now - int d * day_us) (fst (rows_of_day pd (int a) now g))
           = (if d = a then fst (rows_of_day pd (int a) now g) else [])"
    using day day_us_pos by (auto simp: filter_empty_conv intro!: filter_True)
  show ?case
    using Cons.IH[of "snd (rows_of_day pd (int a) now g)"] Cons.prems f len
    by (auto simp: case_prod_beta Let_def)
qed

lemma remainder_rows_props:
  "length (fst (remainder_rows n now g)) = n
   \<and> (\<forall>r \<in> set (fst (remainder_rows n now g)). row_ok r \<and> (\<exists>d \<in> {0..89}. time r = now - d * day_us))"
proof (induction n arbitrary: g)
  case 0
  then show ?case by simp
next
  case (Suc n)
  have r: "0 \<le> fst (randint 0 89 g) \<and> fst (randint 0 89 g) \<le> 89"
    by (rule randint_range) simp
  show ?case
    using Suc.IH[of "snd (synth_row (fst (randint 0 89 g)) now (snd (randint 0 89 g)))"]
      synth_row_ok[of "fst (randint 0 89 g)" now "snd (randint 0 89 g)"]
      synth_row_time[of "fst (randint 0 89 g)" now "snd (randint 0 89 g)"] r
    by (auto simp: case_prod_beta Let_def)
qed

lemma take_random_props:
  "n \<le> length xs \<Longrightarrow>
   length (fst (take_random n xs g)) = n \<and> mset (fst (take_random n xs g)) \<subseteq># mset xs"
proof (induction n arbitrary: xs g)
  case 0
  then show ?case by simp
next
  case (Suc n)
  then have ne: "xs \<noteq> []" by auto
  define i where "i = g 0 mod length xs"
  have i: "i < length xs" using ne by (simp add: i_def)
  define rest where "rest = take i xs @ drop (Suc i) xs"
  have lr: "n \<le> length rest" using Suc.prems i by (simp add: rest_def)
  have ms: "mset xs = add_mset (xs ! i) (mset rest)"
    unfolding rest_def using i by (metis id_take_nth_drop mset.simps(2) mset_append union_mset_add_mset_right)
  from Suc.IH[OF lr, of "shift g"]
  show ?case
    using ne ms by (simp add: case_prod_beta Let_def i_def[symmetric] rest_def[symmetric])
qed

lemma take_random_all:
  "mset (fst (take_random (length xs) xs g)) = mset xs"
proof -
  have "length (fst (take_random (length xs) xs g)) = length xs \<and> mset (fst (take_random (length xs) xs g)) \<subseteq># mset xs"
    by (rule take_random_props) simp
  then show ?thesis
    by (metis size_mset subset_mset.antisym_conv2 mset_subset_size less_irrefl)
qed

lemma dupe_count_nonneg: "0 \<le> rows \<Longrightarrow> dupe_count_of rows = rows div 20"
proof -
  assume r: "0 \<le> rows"
  have e: "(of_int rows :: rat) * (5 / 100) = of_int rows / of_int 20" by simp
  have "0 \<le> (of_int rows :: rat) * (5 / 100)" using r by simp
  then show ?thesis
    unfolding dupe_count_of_def trunc_def PROOF_DUPLICATE_RATIO_def
    by (simp only: e if_True floor_divide_of_int_eq)
qed

lemma base_records_props:
  assumes "base_records rows now g = ((fixed, extra), g1)"
  shows "length fixed = 90 * nat (per_day_of rows)"
    and "length extra = nat (remainder_of rows)"
    and "\<forall>r \<in> set (fixed @ extra). row_ok r"
    and "\<forall>d < 90. length (filter (\<lambda>r. time r = now - int d * day_us) fixed) = nat (per_day_of rows)"
    and "\<forall>r \<in> set (fixed @ extra). \<exists>d \<in> {0..89}. time r = now - d * day_us"
proof -
  define pd where "pd = nat (per_day_of rows)"
  define g0 where "g0 = snd (rows_of_days [0..<90] pd now g)"
  have fx: "fixed = fst (rows_of_days [0..<90] pd now g)"
    and ex: "extra = fst (remainder_rows (nat (remainder_of rows)) now g0)"
    using assms by (simp_all add: base_records_def pd_def g0_def case_prod_beta Let_def)
  note F = rows_of_days_props[of "[0..<90]" pd now g]
  note E = remainder_rows_props[of "nat (remainder_of rows)" now g0]
  show "length fixed = 90 * nat (per_day_of rows)" using F by (simp add: fx pd_def)
  show "length extra = nat (remainder_of rows)" using E by (simp add: ex)
  show "\<forall>r \<in> set (fixed @ extra). row_ok r" using F E by (auto simp: fx ex)
  show "\<forall>d < 90. length (filter (\<lambda>r. time r = now - int d * day_us) fixed) = nat (per_day_of rows)"
    using rows_of_days_count[of "[0..<90]" now _ pd g] by (simp add: fx pd_def)
  have "\<And>r. r \<in> set fixed \<Longrightarrow> \<exists>d \<in> {0..89}. time r = now - d * day_us"
  proof -
    fix r assume "r \<in> set fixed"
    then obtain d where "d < 90" "time r = now - int d * day_us" using F by (auto simp: fx)
    then show "\<exists>d \<in> {0..89}. time r = now - d * day_us" by (intro bexI[of _ "int d"]) auto
  qed
  then show "\<forall>r \<in> set (fixed @ extra). \<exists>d \<in> {0..89}. time r = now - d * day_us"
    using E by (auto simp: ex)
qed

lemma sample_Inr:
  "sample n df g = (Inr ys, g') \<Longrightarrow> int (length ys) = n \<and> mset ys \<subseteq># mset df"
  using take_random_props[of "nat n" df g]
  by (auto simp: sample_def case_prod_beta split: if_splits)

lemma sample_total:
  "0 \<le> n \<Longrightarrow> n \<le> int (length df) \<Longrightarrow> \<exists>ys g'. sample n df g = (Inr ys, g')"
  by (simp add: sample_def case_prod_beta)

lemma shuffle_mset:
  "sample (int (length df)) df g =
     (Inr (fst (take_random (length df) df g)), snd (take_random (length df) df g))"
  by (simp add: sample_def case_prod_beta)

lemma inject_Inr:
  assumes "inject n df g = (Inr (df', picked), g')"
  shows "df' = df @ set_status picked" and "mset picked \<subseteq># mset df" and "int (length picked) = n"
  using assms sample_Inr[of n df g]
  by (auto simp: inject_def set_status_def split: if_splits sum.splits prod.splits)

lemma generate_notables_Inr:
  assumes "generate_notables rows now g = (Inr ds, g')"
  shows "\<exists>fixed extra g1 picked g2.
           base_records rows now g = ((fixed, extra), g1)
         \<and> inject (dupe_count_of rows) (fixed @ extra) g1 = (Inr (fixed @ extra @ set_status picked, picked), g2)
         \<and> mset ds = mset (fixed @ extra @ set_status picked)
         \<and> mset picked \<subseteq># mset (fixed @ extra)
         \<and> int (length picked) = dupe_count_of rows"
proof -
  obtain fixed extra g1 where b: "base_records rows now g = ((fixed, extra), g1)"
    by (metis prod.exhaust)
  obtain res g2 where i: "inject (dupe_count_of rows) (fixed @ extra) g1 = (res, g2)"
    by (metis prod.exhaust)
  from assms b i obtain df' picked where r: "res = Inr (df', picked)"
    and s: "sample (int (length df')) df' g2 = (Inr ds, g')"
    by (auto simp: generate_notables_def split: sum.splits)
  note I = inject_Inr[OF i[unfolded r]]
  have "mset ds = mset df'" using s by (simp add: shuffle_mset take_random_all[of df' g2, symmetric])
  with I b i r show ?thesis by auto
qed

lemma base_length:
  assumes "0 \<le> rows"
  shows "90 * nat (per_day_of rows) + nat (remainder_of rows) = (if rows < 90 then 90 else nat rows)"
proof (cases "rows < 90")
  case True
  with assms have "rows div 90 = 0" by simp
  then show ?thesis using True by (simp add: per_day_of_def remainder_of_def)
next
  case False
  then have p: "0 < rows div 90" by (simp add: pos_imp_zdiv_pos_iff)
  have "rows = 90 * (rows div 90) + rows mod 90" by simp
  moreover have "0 \<le> rows mod 90" by simp
  ultimately show ?thesis using False p
    by (simp add: per_day_of_def remainder_of_def)
qed

lemma generate_notables_total:
  assumes "0 \<le> rows"
  shows "\<exists>ds g'. generate_notables rows now g = (Inr ds, g')"
proof -
  obtain fixed extra g1 where b: "base_records rows now g = ((fixed, extra), g1)"
    by (metis prod.exhaust)
  have len: "length (fixed @ extra) = (if rows < 90 then 90 else nat rows)"
    using base_records_props(1,2)[OF b] base_length[OF assms] by simp
  have dc: "dupe_count_of rows = rows div 20" by (rule dupe_count_nonneg[OF assms])
  have "0 \<le> rows div 20" "rows div 20 \<le> int (length (fixed @ extra))"
    using assms len by (auto simp: pos_imp_zdiv_nonneg_iff) 
  then obtain ys g2 where "sample (dupe_count_of rows) (fixed @ extra) g1 = (Inr ys, g2)"
    using sample_total[of "rows div 20" "fixed @ extra" g1] dc by auto
  then have "\<exists>df' picked g2. inject (dupe_count_of rows) (fixed @ extra) g1 = (Inr (df', picked), g2)"
    by (auto simp: inject_def)
  then show ?thesis using b
    by (auto simp: generate_notables_def sample_def case_prod_beta)
qed

lemma length_filter_mset: "length (filter P xs) = size (filter_mset P (mset xs))"
  by (metis mset_filter size_mset)

lemma length_filter_cong_mset:
  "mset xs = mset ys \<Longrightarrow> length (filter P xs) = length (filter P ys)"
  by (metis length_filter_mset)

lemma dup_rows_mset:
  assumes "mset ds = mset ds'"
  shows "length (dup_rows ds) = length (dup_rows ds')"
proof -
  have inner: "length (filter (\<lambda>r'. GROUP_COLS r' = k) ds)
                 = length (filter (\<lambda>r'. GROUP_COLS r' = k) ds')" for k
    by (rule length_filter_cong_mset[OF assms])
  have "dup_rows ds =
          filter (\<lambda>r. status_label r = closed_without
                \<and> 2 \<le> length (filter (\<lambda>r'. GROUP_COLS r' = GROUP_COLS r) ds')) ds"
    unfolding dup_rows_def inner ..
  then show ?thesis
    unfolding dup_rows_def[of ds'] by (simp only: length_filter_cong_mset[OF assms])
qed

lemma filter_pos: "x \<in> set xs \<Longrightarrow> P x \<Longrightarrow> 1 \<le> length (filter P xs)"
  by (induction xs) auto

lemma GROUP_COLS_status [simp]: "GROUP_COLS (r\<lparr>status_label := s\<rparr>) = GROUP_COLS r"
  by (simp add: GROUP_COLS_def)

lemma dup_rows_inject:
  assumes "mset picked \<subseteq># mset df"
  shows "length picked \<le> length (dup_rows (df @ set_status picked))"
proof -
  let ?L = "df @ set_status picked"
  let ?P = "\<lambda>r. status_label r = closed_without
                \<and> 2 \<le> length (filter (\<lambda>r'. GROUP_COLS r' = GROUP_COLS r) ?L)"
  have all: "?P x" if x: "x \<in> set (set_status picked)" for x
  proof -
    from x obtain b where b: "b \<in> set picked" and xb: "x = b\<lparr>status_label := closed_without\<rparr>"
      by (auto simp: set_status_def)
    have "b \<in> set df" using assms b by (meson in_multiset_in_set mset_subset_eqD)
    then have "1 \<le> length (filter (\<lambda>r'. GROUP_COLS r' = GROUP_COLS x) df)"
      by (rule filter_pos) (simp add: xb)
    moreover have "1 \<le> length (filter (\<lambda>r'. GROUP_COLS r' = GROUP_COLS x) (set_status picked))"
      using x by (rule filter_pos) simp
    ultimately show ?thesis by (simp add: xb)
  qed
  have "filter ?P (set_status picked) = set_status picked"
    by (rule filter_True) (use all in blast)
  then have "length (filter ?P ?L) = length (filter ?P df) + length (set_status picked)"
    by simp
  then show ?thesis by (simp add: dup_rows_def set_status_def)
qed

lemma set_status_ok: "\<forall>r \<in> set rs. row_ok r \<Longrightarrow> \<forall>r \<in> set (set_status rs). row_ok r"
  by (auto simp: set_status_def row_ok_def)

lemma generate_length:
  assumes "0 \<le> N" and "generate_notables N now g = (Inr ds, g')"
  shows "int (length ds) = (if N < 90 then 90 else N) + N div 20"
proof -
  from generate_notables_Inr[OF assms(2)] obtain fixed extra g1 picked where
    b: "base_records N now g = ((fixed, extra), g1)"
    and m: "mset ds = mset (fixed @ extra @ set_status picked)"
    and l: "int (length picked) = dupe_count_of N" by blast
  have "length ds = length (fixed @ extra @ set_status picked)" using m by (metis size_mset)
  then have "length ds = length fixed + length extra + length picked" by (simp add: set_status_def)
  then show ?thesis
    using base_records_props(1,2)[OF b] base_length[OF assms(1)] l dupe_count_nonneg[OF assms(1)] assms(1)
    by (auto split: if_splits)
qed



text \<open>From 90 rows up, the base set and the output have the sizes the docstring promises.\<close>

lemma base_rows_from_90:
  assumes "90 \<le> N"
  shows "\<exists>fixed extra g1 ds g'.
           base_records N now g = ((fixed, extra), g1)
         \<and> generate_notables N now g = (Inr ds, g')
         \<and> int (length (fixed @ extra)) = N
         \<and> (\<forall>d < 90. int (length (filter (\<lambda>r. time r = now - int d * day_us) fixed)) = N div 90)
         \<and> int (length extra) = N mod 90
         \<and> (\<forall>r \<in> set extra. \<exists>d \<in> {0..89}. time r = now - d * day_us)
         \<and> int (length ds) = N + \<lfloor>of_int N * PROOF_DUPLICATE_RATIO\<rfloor>"
proof -
  have n0: "0 \<le> N" using assms by simp
  obtain fixed extra g1 where b: "base_records N now g = ((fixed, extra), g1)"
    by (metis prod.exhaust)
  obtain ds g' where gen: "generate_notables N now g = (Inr ds, g')"
    using generate_notables_total[OF n0] by blast
  note B = base_records_props[OF b]
  have pd: "per_day_of N = N div 90" using assms by (simp add: per_day_of_def pos_imp_zdiv_pos_iff)
  have p: "0 \<le> N div 90" using n0 by (simp add: pos_imp_zdiv_nonneg_iff)
  have rm: "remainder_of N = N mod 90" by (simp add: remainder_of_def pd minus_mult_div_eq_mod mult.commute)
  have fl: "\<lfloor>of_int N * PROOF_DUPLICATE_RATIO\<rfloor> = N div 20"
    using dupe_count_nonneg[OF n0] n0 by (simp add: dupe_count_of_def trunc_def PROOF_DUPLICATE_RATIO_def split: if_splits)
  have "int (length (fixed @ extra)) = N"
    using B(1,2) base_length[OF n0] assms by simp
  moreover have "\<forall>d < 90. int (length (filter (\<lambda>r. time r = now - int d * day_us) fixed)) = N div 90"
    using B(4) pd p by simp
  moreover have "int (length extra) = N mod 90" using B(2) rm by simp
  moreover have "\<forall>r \<in> set extra. \<exists>d \<in> {0..89}. time r = now - d * day_us" using B(5) by simp
  moreover have "int (length ds) = N + \<lfloor>of_int N * PROOF_DUPLICATE_RATIO\<rfloor>"
    using generate_length[OF n0 gen] assms fl by simp
  ultimately show ?thesis using b gen by blast
qed

section \<open>Statements about the generator\<close>

text \<open>
  C2. Whenever the generator returns a dataset for the row count \<open>N\<close>, at least
  \<open>\<lfloor>N \<cdot> 0.05\<rfloor>\<close> of its rows have the status "closed without escalation" and agree on the
  five grouping columns with a row at another position; and for every \<open>N \<ge> 0\<close> it does
  return a dataset.
\<close>

theorem generator_injects_duplicates:
  "(\<forall>ds g'. generate_notables N now g = (Inr ds, g')
       \<longrightarrow> \<lfloor>of_int N * PROOF_DUPLICATE_RATIO\<rfloor> \<le> int (length (dup_rows ds)))
   \<and> (0 \<le> N \<longrightarrow> (\<exists>ds g'. generate_notables N now g = (Inr ds, g')))"
proof (intro conjI allI impI)
  fix ds g' assume gen: "generate_notables N now g = (Inr ds, g')"
  from generate_notables_Inr[OF gen] obtain fixed extra picked where
    m: "mset ds = mset (fixed @ extra @ set_status picked)"
    and p: "mset picked \<subseteq># mset (fixed @ extra)"
    and l: "int (length picked) = dupe_count_of N" by blast
  have "length picked \<le> length (dup_rows ((fixed @ extra) @ set_status picked))"
    by (rule dup_rows_inject[OF p])
  also have "\<dots> = length (dup_rows ds)" by (rule dup_rows_mset) (simp add: m)
  finally have le: "dupe_count_of N \<le> int (length (dup_rows ds))" using l by simp
  have "\<lfloor>of_int N * PROOF_DUPLICATE_RATIO\<rfloor> \<le> dupe_count_of N"
    by (simp add: dupe_count_of_def trunc_def)
  then show "\<lfloor>of_int N * PROOF_DUPLICATE_RATIO\<rfloor> \<le> int (length (dup_rows ds))" using le by linarith
next
  assume "0 \<le> N" then show "\<exists>ds g'. generate_notables N now g = (Inr ds, g')"
    by (rule generate_notables_total)
qed


theorem generator_injects_duplicates_witness:
  "\<lfloor>of_int 100 * PROOF_DUPLICATE_RATIO\<rfloor> = 5
   \<and> (\<exists>ds g'. generate_notables 100 clock0 zero_tape = (Inr ds, g')
         \<and> 5 \<le> int (length (dup_rows ds)))"
proof -
  have f: "\<lfloor>of_int 100 * PROOF_DUPLICATE_RATIO\<rfloor> = 5"
    by (simp add: PROOF_DUPLICATE_RATIO_def)
  show ?thesis
    using generator_injects_duplicates [of 100 clock0 zero_tape] f
    by auto
qed

text \<open>
  C3. The claim is what the docstring of \<open>generate_notables\<close> promises ("Build \<open>rows\<close>
  synthetic events"), and from 90 rows up the code keeps it (\<open>base_rows_from_90\<close>). Below
  90 it does not: \<open>rows // 90 or 1\<close> sets \<open>per_day\<close> to 1, so the day loop emits 90 rows,
  and \<open>remainder = rows - per_day * 90\<close>, meant to top the set up to \<open>rows\<close>, is negative
  and adds nothing. For the row count 1, whatever the clock and the random draws, the
  output has 90 rows, where the claim gives \<open>1 + \<lfloor>1 \<cdot> 0.05\<rfloor> = 1\<close>.
\<close>

theorem generator_small_count:
  "row_count (generate_notables 1 now g) = Some 90
   \<and> 1 + \<lfloor>of_int 1 * PROOF_DUPLICATE_RATIO\<rfloor> = 1"
proof -
  obtain ds g' where gen: "generate_notables 1 now g = (Inr ds, g')"
    using generate_notables_total[of 1 now g] by auto
  have "int (length ds) = 90" using generate_length[OF _ gen] by simp
  then show ?thesis by (simp add: row_count_def gen PROOF_DUPLICATE_RATIO_def floor_eq_iff)
qed

text \<open>
  C6. Every row of a dataset the generator returns has its severity among the four levels,
  its status among the two labels, its source address in 10.0.0.0/16 and its destination
  address in 192.168.0.0/16, in both cases other than the first and the last address of
  the range; and for every \<open>N \<ge> 0\<close> the generator does return a dataset.
\<close>

theorem generator_rows_in_pools:
  "(\<forall>ds g'. generate_notables N now g = (Inr ds, g') \<longrightarrow> (\<forall>r \<in> set ds. row_ok r))
   \<and> (0 \<le> N \<longrightarrow> (\<exists>ds g'. generate_notables N now g = (Inr ds, g')))"
proof (intro conjI allI impI)
  fix ds g' assume gen: "generate_notables N now g = (Inr ds, g')"
  from generate_notables_Inr[OF gen] obtain fixed extra g1 picked where
    b: "base_records N now g = ((fixed, extra), g1)"
    and m: "mset ds = mset (fixed @ extra @ set_status picked)"
    and p: "mset picked \<subseteq># mset (fixed @ extra)" by blast
  have ok: "\<forall>r \<in> set (fixed @ extra). row_ok r" by (rule base_records_props(3)[OF b])
  have "set picked \<subseteq> set (fixed @ extra)" using p by (metis set_mset_mono set_mset_mset)
  then have "\<forall>r \<in> set picked. row_ok r" using ok by blast
  then have "\<forall>r \<in> set (set_status picked). row_ok r" by (rule set_status_ok)
  moreover have "set ds = set (fixed @ extra) \<union> set (set_status picked)"
    using m by (metis append_assoc mset_eq_setD set_append)
  ultimately show "\<forall>r \<in> set ds. row_ok r" using ok by blast
next
  assume "0 \<le> N" then show "\<exists>ds g'. generate_notables N now g = (Inr ds, g')"
    by (rule generate_notables_total)
qed


theorem generator_rows_in_pools_witness:
  "\<exists>ds g'. generate_notables 100 clock0 zero_tape = (Inr ds, g') \<and> (\<forall>r \<in> set ds. row_ok r)"
  using generator_rows_in_pools [of 100 clock0 zero_tape]
  by auto


text \<open>
  C10. When the injection step succeeds, the frame becomes the old frame followed by the
  duplicates; each duplicate is its sampled row, a row of the old frame, with
  \<open>status_label\<close> set to "closed without escalation" and every other column, among them the
  timestamp, the category and the file name, unchanged; so a duplicate of a row that was
  "closed with escalation" differs from it in \<open>status_label\<close> and in nothing else.
\<close>

theorem duplicate_frame:
  assumes "inject n df g = (Inr (df', dupe_sample), g')"
  shows "df' = df @ set_status dupe_sample
       \<and> mset dupe_sample \<subseteq># mset df
       \<and> length (set_status dupe_sample) = length dupe_sample
       \<and> (\<forall>i < length dupe_sample.
            set_status dupe_sample ! i = (dupe_sample ! i)\<lparr>status_label := closed_without\<rparr>
          \<and> time (set_status dupe_sample ! i) = time (dupe_sample ! i)
          \<and> src (set_status dupe_sample ! i) = src (dupe_sample ! i)
          \<and> dest (set_status dupe_sample ! i) = dest (dupe_sample ! i)
          \<and> signature (set_status dupe_sample ! i) = signature (dupe_sample ! i)
          \<and> category (set_status dupe_sample ! i) = category (dupe_sample ! i)
          \<and> file_name (set_status dupe_sample ! i) = file_name (dupe_sample ! i)
          \<and> severity (set_status dupe_sample ! i) = severity (dupe_sample ! i)
          \<and> user (set_status dupe_sample ! i) = user (dupe_sample ! i)
          \<and> status_label (set_status dupe_sample ! i) = ''closed without escalation''
          \<and> (status_label (dupe_sample ! i) = ''closed with escalation''
               \<longrightarrow> status_label (set_status dupe_sample ! i) \<noteq> status_label (dupe_sample ! i)))"
  using inject_Inr[OF assms]
  by (simp add: set_status_def closed_without_def)


theorem duplicate_frame_witness:
  "inject 1 [demo_row clock0 ''closed with escalation'', demo_row (clock0 - day_us) ''closed without escalation'']
       zero_tape
     = (Inr ([demo_row clock0 ''closed with escalation'',
              demo_row (clock0 - day_us) ''closed without escalation'',
              demo_row clock0 ''closed without escalation''],
             [demo_row clock0 ''closed with escalation'']), shift zero_tape)
   \<and> set_status [demo_row clock0 ''closed with escalation''] ! 0
       = (demo_row clock0 ''closed with escalation'')\<lparr>status_label := closed_without\<rparr>
   \<and> time (set_status [demo_row clock0 ''closed with escalation''] ! 0) = clock0
   \<and> status_label (set_status [demo_row clock0 ''closed with escalation''] ! 0)
       \<noteq> status_label (demo_row clock0 ''closed with escalation'')"
proof -
  have h: "inject 1 [demo_row clock0 ''closed with escalation'',
                     demo_row (clock0 - day_us) ''closed without escalation''] zero_tape
     = (Inr ([demo_row clock0 ''closed with escalation'',
              demo_row (clock0 - day_us) ''closed without escalation'',
              demo_row clock0 ''closed without escalation''],
             [demo_row clock0 ''closed with escalation'']), shift zero_tape)"
    by (simp add: inject_def sample_def zero_tape_def set_status_def demo_row_def
        closed_without_def Let_def)
  show ?thesis
    using duplicate_frame [OF h] h
    by (simp add: demo_row_def set_status_def closed_without_def)
qed

end
